theory Spec2Isabelle
  imports Main "HOL-Library.Multiset"
begin

text \<open>
  A model of the file browser of BucketViewer: the settings conversions of
  \<open>services/settingsService.ts\<close>, the path, listing, item and sorting logic of the
  \<open>FileExplorer\<close> component, and the helpers of \<open>services/s3Service.ts\<close>. The
  definitions come first, each next to the name it has in the source; the properties follow.
\<close>

section \<open>JavaScript strings and truthiness\<close>

text \<open>
  A JavaScript string is modelled as a \<^typ>\<open>string\<close>, one \<^typ>\<open>char\<close> per code unit.
  The separators the program looks for (\<open>/\<close> and \<open>.\<close>) and every key of its tables
  are ASCII, and \<open>toLowerCase\<close> is modelled on the ASCII letters. An optional field
  (\<open>x?: string\<close>) is an \<^typ>\<open>'a option\<close>, with \<open>None\<close> for \<open>undefined\<close>.
\<close>

definition startsWith :: "string \<Rightarrow> string \<Rightarrow> bool" where
  "startsWith s p = (take (length p) s = p)"

definition endsWith :: "string \<Rightarrow> string \<Rightarrow> bool" where
  "endsWith s p = (length p \<le> length s \<and> drop (length s - length p) s = p)"

definition substring :: "string \<Rightarrow> nat \<Rightarrow> string" where
  \<comment> \<open>\<open>s.substring(n)\<close>, one argument: the rest of the string from index \<open>n\<close>\<close>
  "substring s n = drop n s"

fun split :: "char \<Rightarrow> string \<Rightarrow> string list" where
  \<comment> \<open>\<open>s.split(c)\<close>: one piece more than there are separators, \<open>''''.split(c) = ['''']\<close>\<close>
  "split c [] = [[]]"
| "split c (x # xs) =
     (if x = c then [] # split c xs
      else (case split c xs of [] \<Rightarrow> [[x]] | w # ws \<Rightarrow> (x # w) # ws))"

fun includesStr :: "string \<Rightarrow> string \<Rightarrow> bool" where
  \<comment> \<open>\<open>s.includes(sub)\<close>: \<open>sub\<close> occurs in \<open>s\<close> as a contiguous run\<close>
  "includesStr [] sub = (sub = [])"
| "includesStr (x # xs) sub = (startsWith (x # xs) sub \<or> includesStr xs sub)"



definition truthy :: "string option \<Rightarrow> bool" where
  \<comment> \<open>a string-valued expression in a condition: \<open>undefined\<close> and \<open>''''\<close> are falsy\<close>
  "truthy v = (case v of None \<Rightarrow> False | Some s \<Rightarrow> s \<noteq> [])"

definition orNull :: "string option \<Rightarrow> string option" where
  \<comment> \<open>\<open>v || null\<close> on a string: the empty string becomes \<open>null\<close> too\<close>
  "orNull v = (if truthy v then v else None)"

section \<open>Settings: the camelCase and the snake_case representation\<close>

text \<open>
  The interfaces of \<open>types/settings.ts\<close> as records. A record field is a constant of the
  theory, so each field carries a short prefix of its interface (\<open>cc_name\<close> for
  \<open>ConnectionConfig.name\<close>, \<open>rcc_name\<close> for \<open>RustConnectionConfig.name\<close>). The type
  \<open>number\<close> is the parameter \<open>'n\<close>: the conversions only copy it.
\<close>

record 'n GeneralSettings =
  gs_autoRefresh :: bool
  gs_refreshInterval :: 'n
  gs_defaultDownloadLocation :: string
  gs_confirmBeforeDelete :: bool
  gs_showFilePreview :: bool

record ConnectionConfig =
  cc_name :: string
  cc_serviceType :: string
  cc_endpoint :: string
  cc_accessKey :: string
  cc_secretKey :: string
  cc_region :: string
  cc_isDefault :: bool

record 'n AppearanceSettings =
  as_theme :: string
  as_fontSize :: 'n
  as_showHiddenFiles :: bool
  as_showFileExtensions :: bool

record LayoutSettings =
  ls_defaultView :: string
  ls_sortBy :: string
  ls_sortDirection :: string

record PermissionsSettings =
  ps_allowAnonymousUsageStats :: bool
  ps_enableCaching :: bool

record 'n AppSettings =
  version :: string
  general :: "'n GeneralSettings"
  connections :: "ConnectionConfig list"
  appearance :: "'n AppearanceSettings"
  layout :: LayoutSettings
  permissions :: PermissionsSettings

record 'n RustGeneralSettings =
  auto_refresh :: bool
  refresh_interval :: 'n
  default_download_location :: string
  confirm_before_delete :: bool
  show_file_preview :: bool

record RustConnectionConfig =
  rcc_name :: string
  rcc_service_type :: string
  rcc_endpoint :: string
  rcc_access_key :: string
  rcc_secret_key :: string
  rcc_region :: string
  rcc_is_default :: bool

record 'n RustAppearanceSettings =
  ras_theme :: string
  ras_font_size :: 'n
  ras_show_hidden_files :: bool
  ras_show_file_extensions :: bool

record RustLayoutSettings =
  default_view :: string
  sort_by :: string
  sort_direction :: string

record RustPermissionsSettings =
  allow_anonymous_usage_stats :: bool
  enable_caching :: bool

record 'n RustAppSettings =
  r_version :: string
  r_general :: "'n RustGeneralSettings"
  r_connections :: "RustConnectionConfig list"
  r_appearance :: "'n RustAppearanceSettings"
  r_layout :: RustLayoutSettings
  r_permissions :: RustPermissionsSettings

subsection \<open>\<open>convertFromRust\<close>\<close>

definition convertFromRust_general :: "'n RustGeneralSettings \<Rightarrow> 'n GeneralSettings" where
  "convertFromRust_general rust =
     \<lparr> gs_autoRefresh = auto_refresh rust,
       gs_refreshInterval = refresh_interval rust,
       gs_defaultDownloadLocation = default_download_location rust,
       gs_confirmBeforeDelete = confirm_before_delete rust,
       gs_showFilePreview = show_file_preview rust \<rparr>"

definition convertFromRust_connection :: "RustConnectionConfig \<Rightarrow> ConnectionConfig" where
  "convertFromRust_connection rust =
     \<lparr> cc_name = rcc_name rust,
       cc_serviceType = rcc_service_type rust,
       cc_endpoint = rcc_endpoint rust,
       cc_accessKey = rcc_access_key rust,
       cc_secretKey = rcc_secret_key rust,
       cc_region = rcc_region rust,
       cc_isDefault = rcc_is_default rust \<rparr>"

definition convertFromRust_appearance :: "'n RustAppearanceSettings \<Rightarrow> 'n AppearanceSettings" where
  "convertFromRust_appearance rust =
     \<lparr> as_theme = ras_theme rust,
       as_fontSize = ras_font_size rust,
       as_showHiddenFiles = ras_show_hidden_files rust,
       as_showFileExtensions = ras_show_file_extensions rust \<rparr>"

definition convertFromRust_layout :: "RustLayoutSettings \<Rightarrow> LayoutSettings" where
  "convertFromRust_layout rust =
     \<lparr> ls_defaultView = default_view rust,
       ls_sortBy = sort_by rust,
       ls_sortDirection = sort_direction rust \<rparr>"

definition convertFromRust_permissions :: "RustPermissionsSettings \<Rightarrow> PermissionsSettings" where
  "convertFromRust_permissions rust =
     \<lparr> ps_allowAnonymousUsageStats = allow_anonymous_usage_stats rust,
       ps_enableCaching = enable_caching rust \<rparr>"

definition convertFromRust_settings :: "'n RustAppSettings \<Rightarrow> 'n AppSettings" where
  "convertFromRust_settings rust =
     \<lparr> version = r_version rust,
       general = convertFromRust_general (r_general rust),
       connections = map convertFromRust_connection (r_connections rust),
       appearance = convertFromRust_appearance (r_appearance rust),
       layout = convertFromRust_layout (r_layout rust),
       permissions = convertFromRust_permissions (r_permissions rust) \<rparr>"

subsection \<open>\<open>convertToRust\<close>\<close>

definition convertToRust_general :: "'n GeneralSettings \<Rightarrow> 'n RustGeneralSettings" where
  "convertToRust_general frontend =
     \<lparr> auto_refresh = gs_autoRefresh frontend,
       refresh_interval = gs_refreshInterval frontend,
       default_download_location = gs_defaultDownloadLocation frontend,
       confirm_before_delete = gs_confirmBeforeDelete frontend,
       show_file_preview = gs_showFilePreview frontend \<rparr>"

definition convertToRust_connection :: "ConnectionConfig \<Rightarrow> RustConnectionConfig" where
  "convertToRust_connection frontend =
     \<lparr> rcc_name = cc_name frontend,
       rcc_service_type = cc_serviceType frontend,
       rcc_endpoint = cc_endpoint frontend,
       rcc_access_key = cc_accessKey frontend,
       rcc_secret_key = cc_secretKey frontend,
       rcc_region = cc_region frontend,
       rcc_is_default = cc_isDefault frontend \<rparr>"

definition convertToRust_appearance :: "'n AppearanceSettings \<Rightarrow> 'n RustAppearanceSettings" where
  "convertToRust_appearance frontend =
     \<lparr> ras_theme = as_theme frontend,
       ras_font_size = as_fontSize frontend,
       ras_show_hidden_files = as_showHiddenFiles frontend,
       ras_show_file_extensions = as_showFileExtensions frontend \<rparr>"

definition convertToRust_layout :: "LayoutSettings \<Rightarrow> RustLayoutSettings" where
  "convertToRust_layout frontend =
     \<lparr> default_view = ls_defaultView frontend,
       sort_by = ls_sortBy frontend,
       sort_direction = ls_sortDirection frontend \<rparr>"

definition convertToRust_permissions :: "PermissionsSettings \<Rightarrow> RustPermissionsSettings" where
  "convertToRust_permissions frontend =
     \<lparr> allow_anonymous_usage_stats = ps_allowAnonymousUsageStats frontend,
       enable_caching = ps_enableCaching frontend \<rparr>"

definition convertToRust_settings :: "'n AppSettings \<Rightarrow> 'n RustAppSettings" where
  "convertToRust_settings frontend =
     \<lparr> r_version = version frontend,
       r_general = convertToRust_general (general frontend),
       r_connections = map convertToRust_connection (connections frontend),
       r_appearance = convertToRust_appearance (appearance frontend),
       r_layout = convertToRust_layout (layout frontend),
       r_permissions = convertToRust_permissions (permissions frontend) \<rparr>"

section \<open>Virtual paths, storage prefixes and breadcrumbs\<close>

text \<open>
  The explorer keeps the current folder as the string \<open>currentPath\<close>: \<open>/\<close> at the root,
  \<open>/photos/2024/\<close> below it. The prefix sent to the backend is derived in two steps:
  \<open>loadObjects\<close> cuts the leading slash and appends a trailing one, and
  \<open>S3Service.listObjects\<close> normalises what it is given once more and sends \<open>null\<close> for
  the empty string.
\<close>

definition loadPrefix :: "string \<Rightarrow> string" where
  \<comment> \<open>the \<open>prefix\<close> computed at the start of \<open>loadObjects\<close>\<close>
  "loadPrefix currentPath =
     (if currentPath = ''/'' then ''''
      else (let prefix = substring currentPath 1
            in if \<not> endsWith prefix ''/'' then prefix @ ''/'' else prefix))"

definition normalizePrefix :: "string option \<Rightarrow> string option" where
  \<comment> \<open>\<open>normalizedPrefix\<close> in \<open>S3Service.listObjects\<close>; a falsy prefix is left as it is\<close>
  "normalizePrefix prefix =
     (case prefix of
        None \<Rightarrow> None
      | Some p \<Rightarrow>
          if p = [] then Some p
          else (let p1 = (if startsWith p ''/'' then substring p 1 else p);
                    p2 = (if p1 \<noteq> [] \<and> \<not> endsWith p1 ''/'' then p1 @ ''/'' else p1)
                in Some p2))"

definition requestPrefix :: "string \<Rightarrow> string option" where
  \<comment> \<open>the \<open>prefix\<close> argument of the backend call made for \<open>currentPath\<close>\<close>
  "requestPrefix currentPath = orNull (normalizePrefix (Some (loadPrefix currentPath)))"

definition storagePrefix :: "string \<Rightarrow> string" where
  \<comment> \<open>the same as a string: \<open>null\<close> asks for the whole bucket, the empty prefix\<close>
  "storagePrefix currentPath = (case requestPrefix currentPath of None \<Rightarrow> '''' | Some p \<Rightarrow> p)"

definition newPath :: "string \<Rightarrow> string \<Rightarrow> string" where
  \<comment> \<open>\<open>newPath\<close> in \<open>handleFileClick\<close>: the path of the sub-folder \<open>name\<close>\<close>
  "newPath currentPath name =
     (if currentPath = ''/'' then ''/'' @ name @ ''/''
      else currentPath @ (if endsWith currentPath ''/'' then '''' else ''/'') @ name @ ''/'')"

definition pathOfSegments :: "string list \<Rightarrow> string" where
  \<comment> \<open>the path reached from the root by opening the folders \<open>segs\<close> one after the other\<close>
  "pathOfSegments segs = foldl newPath ''/'' segs"

definition pathParts :: "string \<Rightarrow> string list" where
  \<comment> \<open>\<open>currentPath.split("/").filter(Boolean)\<close>\<close>
  "pathParts currentPath = filter (\<lambda>s. s \<noteq> []) (split CHR ''/'' currentPath)"

definition fromPrefix :: "string \<Rightarrow> string" where
  \<comment> \<open>the virtual path of a storage prefix: its segments, opened from the root\<close>
  "fromPrefix p = pathOfSegments (pathParts p)"

record breadcrumb =
  bc_name :: string
  bc_path :: string

definition rootLabel :: "string option \<Rightarrow> string" where
  \<comment> \<open>\<open>bucketName || "Root"\<close>\<close>
  "rootLabel bucketName = (case orNull bucketName of Some b \<Rightarrow> b | None \<Rightarrow> ''Root'')"

fun pushBreadcrumbs :: "string \<Rightarrow> string list \<Rightarrow> breadcrumb list" where
  \<comment> \<open>the \<open>pathParts.forEach\<close> loop; the first argument is \<open>currentBreadcrumbPath\<close>\<close>
  "pushBreadcrumbs currentBreadcrumbPath [] = []"
| "pushBreadcrumbs currentBreadcrumbPath (part # parts) =
     (let p = currentBreadcrumbPath @ part @ ''/''
      in \<lparr> bc_name = part, bc_path = p \<rparr> # pushBreadcrumbs p parts)"

definition breadcrumbs :: "string option \<Rightarrow> string \<Rightarrow> breadcrumb list" where
  "breadcrumbs bucketName currentPath =
     \<lparr> bc_name = rootLabel bucketName, bc_path = ''/'' \<rparr>
       # pushBreadcrumbs ''/'' (pathParts currentPath)"

subsection \<open>The specification's vocabulary\<close>

text \<open>
  The specification speaks of a virtual path as a sequence of segments, none of them empty
  or containing the separator, and of a storage prefix as the segments joined by \<open>/\<close> with
  a trailing \<open>/\<close>. These three definitions follow its words; the theorems compare them
  with the functions above.
\<close>

definition validSegment :: "string \<Rightarrow> bool" where
  "validSegment s = (s \<noteq> [] \<and> CHR ''/'' \<notin> set s)"

definition prefixOfSegments :: "string list \<Rightarrow> string" where
  "prefixOfSegments segs = concat (map (\<lambda>s. s @ ''/'') segs)"

definition wellFormedPrefix :: "string \<Rightarrow> bool" where
  \<comment> \<open>no leading separator, a trailing separator when non-empty, no empty segment\<close>
  "wellFormedPrefix p =
     (\<not> startsWith p ''/'' \<and> (p = [] \<or> endsWith p ''/'') \<and> \<not> includesStr p ''//'')"

section \<open>Listing a folder\<close>

text \<open>
  The Tauri command \<open>list_s3_objects\<close> is outside the program: it is the parameter
  \<open>invoke\<close>, a function from the arguments of the call to either the error message of a
  rejected promise (\<open>Inl\<close>) or the response (\<open>Inr\<close>). An \<open>await\<close> is a call.
\<close>

record ObjectInfo =
  oi_key :: string
  oi_size :: "int option"
  oi_last_modified :: "string option"
  oi_etag :: "string option"
  oi_storage_class :: "string option"
  oi_content_type :: "string option"
  oi_is_folder :: bool

record ListObjectsResponse =
  lr_objects :: "ObjectInfo list"
  lr_common_prefixes :: "string list"
  lr_is_truncated :: bool
  lr_next_continuation_token :: "string option"
  lr_prefix :: "string option"

record ListRequest =
  rq_connectionConfig :: RustConnectionConfig
  rq_bucket :: string
  rq_prefix :: "string option"
  rq_delimiter :: "string option"
  rq_maxKeys :: "nat option"
  rq_continuationToken :: "string option"

type_synonym backend = "ListRequest \<Rightarrow> string + ListObjectsResponse"

definition numOrNull :: "nat option \<Rightarrow> nat option" where
  \<comment> \<open>\<open>maxKeys || null\<close>: zero is falsy\<close>
  "numOrNull v = (case v of None \<Rightarrow> None | Some n \<Rightarrow> if n = 0 then None else Some n)"

definition listObjects ::
  "backend \<Rightarrow> ConnectionConfig \<Rightarrow> string \<Rightarrow> string option \<Rightarrow> string option \<Rightarrow> nat option
     \<Rightarrow> string option \<Rightarrow> string + ListObjectsResponse" where
  \<comment> \<open>\<open>S3Service.listObjects\<close>; a rejection is thrown again with the same message\<close>
  "listObjects invoke connection bucket prefix delimiter maxKeys continuationToken =
     invoke \<lparr> rq_connectionConfig = convertToRust_connection connection,
              rq_bucket = bucket,
              rq_prefix = orNull (normalizePrefix prefix),
              rq_delimiter = orNull delimiter,
              rq_maxKeys = numOrNull maxKeys,
              rq_continuationToken = orNull continuationToken \<rparr>"

record ExplorerState =
  st_objects :: "ObjectInfo list"
  st_folders :: "string list"
  st_loading :: bool
  st_error :: "string option"

definition loadErrorMessage :: "string \<Rightarrow> string" where
  \<comment> \<open>the message \<open>setError\<close> receives in the \<open>catch\<close> branch of \<open>loadObjects\<close>\<close>
  "loadErrorMessage errorMessage =
     (if includesStr errorMessage ''Access denied'' \<or> includesStr errorMessage ''AccessDenied''
      then ''Access denied - Please check your S3 credentials and permissions''
      else if includesStr errorMessage ''Invalid credentials''
              \<or> includesStr errorMessage ''InvalidAccessKeyId''
      then ''Invalid S3 credentials - Please verify your access key and secret key''
      else if includesStr errorMessage ''Network error'' \<or> includesStr errorMessage ''timeout''
      then ''Network connectivity issue - Please check your internet connection and endpoint URL''
      else if includesStr errorMessage ''DNS resolution failed''
      then ''Cannot resolve S3 endpoint - Please verify the endpoint URL is correct''
      else errorMessage)"

definition activeConnectionOf :: "ConnectionConfig list \<Rightarrow> ConnectionConfig option" where
  \<comment> \<open>\<open>connections.find(conn => conn.isDefault) || connections[0]\<close>\<close>
  "activeConnectionOf conns =
     (case find cc_isDefault conns of
        Some c \<Rightarrow> Some c
      | None \<Rightarrow> (case conns of [] \<Rightarrow> None | c # _ \<Rightarrow> Some c))"

definition loadObjects ::
  "backend \<Rightarrow> string option \<Rightarrow> string \<Rightarrow> 'n AppSettings option \<Rightarrow> ExplorerState \<Rightarrow> ExplorerState" where
  \<comment> \<open>the effect of \<open>loadObjects\<close> on the component's state, from start to \<open>finally\<close>\<close>
  "loadObjects invoke bucketName currentPath settings st =
     (case (orNull bucketName, settings) of
        (Some bucket, Some s) \<Rightarrow>
          (case activeConnectionOf (connections s) of
             None \<Rightarrow> st
           | Some activeConnection \<Rightarrow>
               (case listObjects invoke activeConnection bucket (Some (loadPrefix currentPath))
                       (Some ''/'') (Some 1000) None of
                  Inr response \<Rightarrow>
                    st \<lparr> st_objects := lr_objects response,
                         st_folders := lr_common_prefixes response,
                         st_loading := False, st_error := None \<rparr>
                | Inl errorMessage \<Rightarrow>
                    st \<lparr> st_loading := False, st_error := Some (loadErrorMessage errorMessage) \<rparr>))
      | _ \<Rightarrow> st)"

definition loadRequest :: "ConnectionConfig \<Rightarrow> string \<Rightarrow> string \<Rightarrow> ListRequest" where
  \<comment> \<open>the arguments \<open>loadObjects\<close> passes to the backend\<close>
  "loadRequest activeConnection bucket currentPath =
     \<lparr> rq_connectionConfig = convertToRust_connection activeConnection,
       rq_bucket = bucket,
       rq_prefix = requestPrefix currentPath,
       rq_delimiter = Some ''/'',
       rq_maxKeys = Some 1000,
       rq_continuationToken = None \<rparr>"

section \<open>From a listing to the items of the view\<close>

text \<open>
  \<open>convertToFileItems\<close> turns the common prefixes and the objects of the state into
  \<open>FileItem\<close>s, folders first. \<open>S3Service.formatFileSize\<close> works on floating-point
  logarithms and \<open>S3Service.formatDate\<close> on the locale of the host; they are the
  parameters \<open>formatFileSize\<close> and \<open>formatDate\<close>.
\<close>

datatype ItemType = File | Folder

record FileItem =
  fi_id :: string
  fi_name :: string
  fi_type :: ItemType
  fi_size :: "string option"
  fi_lastModified :: "string option"
  fi_contentType :: "string option"

fun showNat :: "nat \<Rightarrow> string" where
  \<comment> \<open>an array index inside a template literal: its decimal digits\<close>
  "showNat n =
     (if n < 10 then [char_of (48 + n)] else showNat (n div 10) @ [char_of (48 + n mod 10)])"

declare showNat.simps [simp del]

definition currentPrefixOf :: "string \<Rightarrow> string" where
  \<comment> \<open>\<open>currentPrefix\<close> in both loops of \<open>convertToFileItems\<close>\<close>
  "currentPrefixOf currentPath = (if currentPath = ''/'' then '''' else substring currentPath 1)"

definition folderName :: "string \<Rightarrow> string \<Rightarrow> string" where
  \<comment> \<open>\<open>relativePath.split('/')[0]\<close>, after the current prefix has been cut off\<close>
  "folderName currentPath folderPrefix =
     (let currentPrefix = currentPrefixOf currentPath;
          relativePath = (if currentPrefix \<noteq> [] \<and> startsWith folderPrefix currentPrefix
                          then substring folderPrefix (length currentPrefix) else folderPrefix)
      in case split CHR ''/'' relativePath of [] \<Rightarrow> [] | w # _ \<Rightarrow> w)"

definition folderItem :: "string \<Rightarrow> nat \<times> string \<Rightarrow> FileItem list" where
  \<comment> \<open>one round of \<open>folders.forEach\<close>: the item it pushes, if any\<close>
  "folderItem currentPath entry =
     (case entry of (index, folderPrefix) \<Rightarrow>
        (let name = folderName currentPath folderPrefix
         in if name \<noteq> []
            then [\<lparr> fi_id = ''folder-'' @ showNat index, fi_name = name, fi_type = Folder,
                     fi_size = None, fi_lastModified = None, fi_contentType = None \<rparr>]
            else []))"

definition folderItems :: "string \<Rightarrow> string list \<Rightarrow> FileItem list" where
  "folderItems currentPath folders = concat (map (folderItem currentPath) (enumerate 0 folders))"

definition fileName :: "string \<Rightarrow> string \<Rightarrow> string option" where
  \<comment> \<open>\<open>fileName\<close> in \<open>objects.forEach\<close>, for a key that does not end in \<open>/\<close>\<close>
  "fileName currentPath key =
     (let currentPrefix = currentPrefixOf currentPath
      in if currentPath = ''/''
         then (if \<not> includesStr key ''/'' then Some key else None)
         else if startsWith key currentPrefix
         then (let relativePath = substring key (length currentPrefix);
                   cleanPath = (if startsWith relativePath ''/'' then substring relativePath 1
                                else relativePath)
               in if \<not> includesStr cleanPath ''/'' then Some cleanPath else None)
         else None)"

definition fileItem ::
  "(int \<Rightarrow> string) \<Rightarrow> (string \<Rightarrow> string) \<Rightarrow> string \<Rightarrow> nat \<times> ObjectInfo \<Rightarrow> FileItem list" where
  \<comment> \<open>one round of \<open>objects.forEach\<close>\<close>
  "fileItem formatFileSize formatDate currentPath entry =
     (case entry of (index, obj) \<Rightarrow>
        if endsWith (oi_key obj) ''/'' then []
        else (case orNull (fileName currentPath (oi_key obj)) of
                None \<Rightarrow> []
              | Some name \<Rightarrow>
                  [\<lparr> fi_id = ''file-'' @ showNat index, fi_name = name,
                      fi_type = (if oi_is_folder obj then Folder else File),
                      fi_size = (case oi_size obj of
                                   None \<Rightarrow> None
                                 | Some n \<Rightarrow> if n = 0 then None else Some (formatFileSize n)),
                      fi_lastModified = (case orNull (oi_last_modified obj) of
                                           None \<Rightarrow> None | Some d \<Rightarrow> Some (formatDate d)),
                      fi_contentType = oi_content_type obj \<rparr>]))"

definition convertToFileItems ::
  "(int \<Rightarrow> string) \<Rightarrow> (string \<Rightarrow> string) \<Rightarrow> string \<Rightarrow> string list \<Rightarrow> ObjectInfo list
     \<Rightarrow> FileItem list" where
  "convertToFileItems formatFileSize formatDate currentPath folders objects =
     folderItems currentPath folders
     @ concat (map (fileItem formatFileSize formatDate currentPath) (enumerate 0 objects))"

section \<open>Sorting the items\<close>





fun merge :: "('a \<Rightarrow> 'a \<Rightarrow> int) \<Rightarrow> 'a list \<Rightarrow> 'a list \<Rightarrow> 'a list" where
  "merge cmp [] ys = ys"
| "merge cmp xs [] = xs"
| "merge cmp (x # xs) (y # ys) =
     (if cmp x y \<le> 0 then x # merge cmp xs (y # ys) else y # merge cmp (x # xs) ys)"

fun arraySort :: "('a \<Rightarrow> 'a \<Rightarrow> int) \<Rightarrow> 'a list \<Rightarrow> 'a list" where
  "arraySort cmp xs =
     (if length xs \<le> 1 then xs
      else merge cmp (arraySort cmp (take (length xs div 2) xs))
                     (arraySort cmp (drop (length xs div 2) xs)))"

declare arraySort.simps [simp del]




section \<open>Classifying a file by its name\<close>











subsection \<open>Calls in sequence\<close>



section \<open>Example data\<close>

text \<open>
  Scenario F of the specification: a listing in two pages, the first truncated with two
  entries and a token, the second with one entry.
\<close>

definition plainObject :: "string \<Rightarrow> ObjectInfo" where
  "plainObject key =
     \<lparr> oi_key = key, oi_size = None, oi_last_modified = None, oi_etag = None,
       oi_storage_class = None, oi_content_type = None, oi_is_folder = False \<rparr>"

definition scenarioPage1 :: ListObjectsResponse where
  "scenarioPage1 =
     \<lparr> lr_objects = [plainObject ''a.txt'', plainObject ''b.txt''],
       lr_common_prefixes = [''folder1/''],
       lr_is_truncated = True,
       lr_next_continuation_token = Some ''token-1'',
       lr_prefix = None \<rparr>"

definition scenarioPage2 :: ListObjectsResponse where
  "scenarioPage2 =
     \<lparr> lr_objects = [plainObject ''c.txt''],
       lr_common_prefixes = [''folder2/''],
       lr_is_truncated = False,
       lr_next_continuation_token = None,
       lr_prefix = None \<rparr>"

definition scenarioBackend :: backend where
  "scenarioBackend request =
     (if rq_continuationToken request = None then Inr scenarioPage1
      else if rq_continuationToken request = Some ''token-1'' then Inr scenarioPage2
      else Inl ''InvalidToken'')"

definition exampleConnection :: ConnectionConfig where
  "exampleConnection =
     \<lparr> cc_name = ''local'', cc_serviceType = ''MinIO'', cc_endpoint = ''http://localhost:9000'',
       cc_accessKey = ''key'', cc_secretKey = ''secret'', cc_region = ''us-east-1'',
       cc_isDefault = True \<rparr>"

definition exampleSettings :: "nat AppSettings" where
  "exampleSettings =
     \<lparr> version = ''1'',
       general = \<lparr> gs_autoRefresh = False, gs_refreshInterval = 30,
                   gs_defaultDownloadLocation = '''', gs_confirmBeforeDelete = True,
                   gs_showFilePreview = True \<rparr>,
       connections = [exampleConnection],
       appearance = \<lparr> as_theme = ''light'', as_fontSize = 14, as_showHiddenFiles = False,
                      as_showFileExtensions = True \<rparr>,
       layout = \<lparr> ls_defaultView = ''list'', ls_sortBy = ''name'', ls_sortDirection = ''asc'' \<rparr>,
       permissions = \<lparr> ps_allowAnonymousUsageStats = False, ps_enableCaching = True \<rparr> \<rparr>"

definition initialState :: ExplorerState where
  \<comment> \<open>the \<open>useState\<close> defaults of the component\<close>
  "initialState = \<lparr> st_objects = [], st_folders = [], st_loading = False, st_error = None \<rparr>"



section \<open>Properties of the settings conversions\<close>

lemma fromRust_toRust_general: "convertFromRust_general (convertToRust_general g) = g"
  by (simp add: convertFromRust_general_def convertToRust_general_def)

lemma fromRust_toRust_connection: "convertFromRust_connection (convertToRust_connection c) = c"
  by (simp add: convertFromRust_connection_def convertToRust_connection_def)

lemma fromRust_toRust_appearance: "convertFromRust_appearance (convertToRust_appearance a) = a"
  by (simp add: convertFromRust_appearance_def convertToRust_appearance_def)

lemma fromRust_toRust_layout: "convertFromRust_layout (convertToRust_layout l) = l"
  by (simp add: convertFromRust_layout_def convertToRust_layout_def)

lemma fromRust_toRust_permissions: "convertFromRust_permissions (convertToRust_permissions p) = p"
  by (simp add: convertFromRust_permissions_def convertToRust_permissions_def)

lemma toRust_fromRust_general: "convertToRust_general (convertFromRust_general g) = g"
  by (simp add: convertFromRust_general_def convertToRust_general_def)

lemma toRust_fromRust_connection: "convertToRust_connection (convertFromRust_connection c) = c"
  by (simp add: convertFromRust_connection_def convertToRust_connection_def)

lemma toRust_fromRust_appearance: "convertToRust_appearance (convertFromRust_appearance a) = a"
  by (simp add: convertFromRust_appearance_def convertToRust_appearance_def)

lemma toRust_fromRust_layout: "convertToRust_layout (convertFromRust_layout l) = l"
  by (simp add: convertFromRust_layout_def convertToRust_layout_def)

lemma toRust_fromRust_permissions: "convertToRust_permissions (convertFromRust_permissions p) = p"
  by (simp add: convertFromRust_permissions_def convertToRust_permissions_def)

lemma map_fromRust_toRust_connection:
  "map convertFromRust_connection (map convertToRust_connection cs) = cs"
  by (induction cs) (simp_all add: fromRust_toRust_connection)

lemma map_toRust_fromRust_connection:
  "map convertToRust_connection (map convertFromRust_connection cs) = cs"
  by (induction cs) (simp_all add: toRust_fromRust_connection)

text \<open>
  C10. Converting an \<open>AppSettings\<close> value to the Rust representation and back gives the
  value itself, field by field, and so does converting a \<open>RustAppSettings\<close> value to the
  frontend representation and back.
\<close>

theorem settings_roundtrip:
  "convertFromRust_settings (convertToRust_settings s) = s
   \<and> convertToRust_settings (convertFromRust_settings r) = r"
proof
  show "convertFromRust_settings (convertToRust_settings s) = s"
    by (simp del: map_map add: convertFromRust_settings_def convertToRust_settings_def
        fromRust_toRust_general map_fromRust_toRust_connection fromRust_toRust_appearance
        fromRust_toRust_layout fromRust_toRust_permissions)
  show "convertToRust_settings (convertFromRust_settings r) = r"
    by (simp del: map_map add: convertFromRust_settings_def convertToRust_settings_def
        toRust_fromRust_general map_toRust_fromRust_connection toRust_fromRust_appearance
        toRust_fromRust_layout toRust_fromRust_permissions)
qed

section \<open>Properties of the string functions\<close>

lemma endsWith_iff: "endsWith s p \<longleftrightarrow> (\<exists>u. s = u @ p)"
proof
  assume "endsWith s p"
  then have "s = take (length s - length p) s @ p"
    by (metis append_take_drop_id endsWith_def)
  then show "\<exists>u. s = u @ p" ..
next
  assume "\<exists>u. s = u @ p"
  then show "endsWith s p" by (auto simp: endsWith_def)
qed

lemma startsWith_iff: "startsWith s p \<longleftrightarrow> (\<exists>u. s = p @ u)"
proof
  assume "startsWith s p"
  then have "s = p @ drop (length p) s"
    by (metis append_take_drop_id startsWith_def)
  then show "\<exists>u. s = p @ u" ..
next
  assume "\<exists>u. s = p @ u"
  then show "startsWith s p" by (auto simp: startsWith_def)
qed

lemma endsWith_append_self: "endsWith (xs @ p) p"
  by (simp add: endsWith_def)

lemma endsWith_Cons: "endsWith s p \<Longrightarrow> p \<noteq> [] \<Longrightarrow> endsWith (x # s) p"
  by (metis append_Cons endsWith_iff)

lemma split_not_Nil [simp]: "split c s \<noteq> []"
  by (induction s) (auto split: list.splits)

lemma split_no_sep: "w \<in> set (split c s) \<Longrightarrow> c \<notin> set w"
  by (induction s arbitrary: w) (auto split: if_splits list.splits)

lemma split_append_sep: "c \<notin> set w \<Longrightarrow> split c (w @ c # rest) = w # split c rest"
  by (induction w) (auto split: list.splits)

lemma split_concat:
  "concat (map (\<lambda>w. w @ [c]) (butlast (split c s))) @ last (split c s) = s"
proof (induction s)
  case Nil
  show ?case by simp
next
  case (Cons x xs)
  obtain w ws where sp: "split c xs = w # ws"
    by (cases "split c xs") simp_all
  show ?case
  proof (cases "x = c")
    case True
    with Cons show ?thesis by simp
  next
    case False
    with Cons sp show ?thesis by (cases ws) simp_all
  qed
qed

lemma hd_split_Nil: "hd (split c s) = [] \<longleftrightarrow> s = [] \<or> hd s = c"
  by (cases s) (auto split: list.splits)

lemma split_snoc_sep: "split c (q @ [c]) = split c q @ [[]]"
  by (induction q) (auto split: list.splits)

lemma split_middle_nonempty:
  "\<not> includesStr s [c, c] \<Longrightarrow> w \<in> set (butlast (tl (split c s))) \<Longrightarrow> w \<noteq> []"
proof (induction s arbitrary: w)
  case Nil
  then show ?case by simp
next
  case (Cons x xs)
  from Cons.prems(1) have nxs: "\<not> includesStr xs [c, c]" by simp
  show ?case
  proof (cases "x = c")
    case True
    then have w_in: "w \<in> set (butlast (split c xs))" using Cons.prems(2) by simp
    have hdne: "hd (split c xs) \<noteq> [] \<or> xs = []"
    proof (cases xs)
      case Nil then show ?thesis by simp
    next
      case (Cons y ys)
      with True Cons.prems(1) have "y \<noteq> c" by (auto simp: startsWith_def)
      with Cons show ?thesis by (auto split: list.splits)
    qed
    obtain v vs where sp: "split c xs = v # vs" by (cases "split c xs") simp_all
    show ?thesis
    proof (cases "vs = []")
      case True
      with sp w_in show ?thesis by simp
    next
      case False
      with sp w_in have "w = v \<or> w \<in> set (butlast (tl (split c xs)))" by simp
      moreover have "v \<noteq> []" using hdne sp False by (cases xs) auto
      ultimately show ?thesis using Cons.IH [OF nxs] by blast
    qed
  next
    case False
    then have "tl (split c (x # xs)) = tl (split c xs)" by (auto split: list.splits)
    with Cons.prems(2) Cons.IH [OF nxs] show ?thesis by simp
  qed
qed

section \<open>Properties of paths and prefixes\<close>

lemma prefixOfSegments_snoc: "prefixOfSegments (segs @ [s]) = prefixOfSegments segs @ s @ ''/''"
  by (simp add: prefixOfSegments_def)

lemma prefixOfSegments_endsWith: "segs \<noteq> [] \<Longrightarrow> endsWith (prefixOfSegments segs) ''/''"
proof (induction segs rule: rev_induct)
  case Nil then show ?case by simp
next
  case (snoc s segs)
  have "prefixOfSegments (segs @ [s]) = (prefixOfSegments segs @ s) @ ''/''"
    by (simp add: prefixOfSegments_snoc)
  then show ?case by (simp only: endsWith_append_self)
qed

lemma pathOfSegments_eq: "pathOfSegments segs = ''/'' @ prefixOfSegments segs"
proof (induction segs rule: rev_induct)
  case Nil
  show ?case by (simp add: pathOfSegments_def prefixOfSegments_def)
next
  case (snoc s segs)
  show ?case
  proof (cases "segs = []")
    case True
    then show ?thesis by (simp add: pathOfSegments_def prefixOfSegments_def newPath_def)
  next
    case False
    then have e: "endsWith (prefixOfSegments segs) ''/''" by (rule prefixOfSegments_endsWith)
    then have ne: "prefixOfSegments segs \<noteq> []" by (auto simp: endsWith_def)
    have e2: "endsWith (''/'' @ prefixOfSegments segs) ''/''"
      using e by (simp add: endsWith_Cons)
    have "pathOfSegments (segs @ [s]) = newPath (pathOfSegments segs) s"
      by (simp add: pathOfSegments_def)
    also have "\<dots> = newPath (''/'' @ prefixOfSegments segs) s" by (simp only: snoc.IH)
    also have "\<dots> = (''/'' @ prefixOfSegments segs) @ s @ ''/''"
      using ne e2 by (simp add: newPath_def)
    finally show ?thesis by (simp add: prefixOfSegments_snoc)
  qed
qed

lemma pathParts_valid: "s \<in> set (pathParts p) \<Longrightarrow> validSegment s"
  by (auto simp: pathParts_def validSegment_def dest: split_no_sep)

lemma pathParts_prefixOfSegments:
  "\<forall>s\<in>set segs. validSegment s \<Longrightarrow> pathParts (prefixOfSegments segs) = segs"
proof (induction segs)
  case Nil
  show ?case by (simp add: pathParts_def prefixOfSegments_def)
next
  case (Cons s segs)
  then have v: "s \<noteq> []" "CHR ''/'' \<notin> set s" by (simp_all add: validSegment_def)
  have "prefixOfSegments (s # segs) = s @ CHR ''/'' # prefixOfSegments segs"
    by (simp add: prefixOfSegments_def)
  then have "split CHR ''/'' (prefixOfSegments (s # segs)) = s # split CHR ''/'' (prefixOfSegments segs)"
    using v(2) by (simp add: split_append_sep)
  then show ?case using v(1) Cons by (simp add: pathParts_def)
qed

lemma prefixOfSegments_pathParts:
  assumes "wellFormedPrefix p"
  shows "prefixOfSegments (pathParts p) = p"
proof (cases "p = []")
  case True
  then show ?thesis by (simp add: pathParts_def prefixOfSegments_def)
next
  case False
  with assms obtain q where q: "p = q @ ''/''"
    by (auto simp: wellFormedPrefix_def endsWith_iff)
  let ?ps = "split CHR ''/'' q"
  have sp: "split CHR ''/'' p = ?ps @ [[]]" by (simp add: q split_snoc_sep)
  have nostart: "hd p \<noteq> CHR ''/''"
    using assms False by (cases p) (auto simp: wellFormedPrefix_def startsWith_def)
  have hdne: "hd (split CHR ''/'' p) \<noteq> []"
    using nostart False by (simp add: hd_split_Nil)
  have mid: "\<And>w. w \<in> set (butlast (tl (split CHR ''/'' p))) \<Longrightarrow> w \<noteq> []"
    using assms split_middle_nonempty [of p "CHR ''/''"] by (simp add: wellFormedPrefix_def)
  have all_ne: "\<forall>w\<in>set ?ps. w \<noteq> []"
  proof
    fix w assume w: "w \<in> set ?ps"
    obtain v vs where vv: "?ps = v # vs" by (cases ?ps) simp_all
    have "v \<noteq> []" using hdne sp vv by simp
    moreover have "\<And>u. u \<in> set vs \<Longrightarrow> u \<noteq> []" using mid sp vv by simp
    ultimately show "w \<noteq> []" using w vv by auto
  qed
  then have pp: "pathParts p = ?ps" by (simp add: pathParts_def sp)
  have "concat (map (\<lambda>w. w @ ''/'') (butlast (split CHR ''/'' p))) @ last (split CHR ''/'' p) = p"
    by (rule split_concat)
  then have "concat (map (\<lambda>w. w @ ''/'') ?ps) = p" by (simp add: sp)
  then show ?thesis by (simp add: pp prefixOfSegments_def)
qed

lemma prefixOfSegments_not_startsWith:
  "\<forall>s\<in>set segs. validSegment s \<Longrightarrow> \<not> startsWith (prefixOfSegments segs) ''/''"
  by (cases segs; cases "hd segs") (auto simp: prefixOfSegments_def startsWith_def validSegment_def)

lemma storagePrefix_root: "storagePrefix ''/'' = ''''"
  by (simp add: storagePrefix_def requestPrefix_def loadPrefix_def normalizePrefix_def orNull_def truthy_def)

lemma storagePrefix_pathOfSegments:
  assumes "\<forall>s\<in>set segs. validSegment s"
  shows "storagePrefix (''/'' @ prefixOfSegments segs) = prefixOfSegments segs"
proof (cases "segs = []")
  case True
  then show ?thesis using storagePrefix_root by (simp add: prefixOfSegments_def)
next
  case False
  let ?X = "prefixOfSegments segs"
  have e: "endsWith ?X ''/''" using False by (rule prefixOfSegments_endsWith)
  then have ne: "?X \<noteq> []" by (auto simp: endsWith_def)
  have ns: "\<not> startsWith ?X ''/''" using assms by (rule prefixOfSegments_not_startsWith)
  have lp: "loadPrefix (''/'' @ ?X) = ?X" using e ne by (simp add: loadPrefix_def substring_def)
  have "normalizePrefix (Some ?X) = Some ?X" using e ne ns by (simp add: normalizePrefix_def)
  then show ?thesis using ne
    by (simp only: storagePrefix_def requestPrefix_def lp) (simp add: orNull_def truthy_def)
qed

lemma storagePrefix_endsWith: "storagePrefix cp \<noteq> [] \<Longrightarrow> endsWith (storagePrefix cp) ''/''"
  by (auto simp: storagePrefix_def requestPrefix_def loadPrefix_def normalizePrefix_def orNull_def
      truthy_def Let_def endsWith_append_self split: if_splits option.splits)

lemma length_pushBreadcrumbs: "length (pushBreadcrumbs acc parts) = length parts"
  by (induction parts arbitrary: acc) (simp_all add: Let_def)

lemma nth_pushBreadcrumbs:
  "i < length parts \<Longrightarrow>
   pushBreadcrumbs acc parts ! i =
     \<lparr> bc_name = parts ! i, bc_path = acc @ prefixOfSegments (take (Suc i) parts) \<rparr>"
proof (induction parts arbitrary: acc i)
  case Nil
  then show ?case by simp
next
  case (Cons part parts)
  show ?case
  proof (cases i)
    case 0
    then show ?thesis by (simp add: Let_def prefixOfSegments_def)
  next
    case (Suc j)
    with Cons.prems have "j < length parts" by simp
    from Cons.IH [OF this, of "acc @ part @ ''/''"] Suc
    show ?thesis by (simp add: Let_def prefixOfSegments_def)
  qed
qed

text \<open>
  C4. For every virtual path (the path of a sequence of valid segments), the storage prefix
  sent to the backend has no leading \<open>/\<close>, ends with \<open>/\<close> when it is not empty, and is
  the segments joined by \<open>/\<close> with a trailing \<open>/\<close>; the root path \<open>/\<close> gives the empty
  prefix; and a well-formed storage prefix, turned into a virtual path and back, is the
  prefix itself.
\<close>

theorem storage_prefix_wellformed:
  assumes "\<forall>s\<in>set segs. validSegment s" and "wellFormedPrefix p"
  shows "\<not> startsWith (storagePrefix (pathOfSegments segs)) ''/''
       \<and> (storagePrefix (pathOfSegments segs) \<noteq> [] \<longrightarrow> endsWith (storagePrefix (pathOfSegments segs)) ''/'')
       \<and> storagePrefix (pathOfSegments segs) = prefixOfSegments segs
       \<and> storagePrefix ''/'' = ''''
       \<and> storagePrefix (fromPrefix p) = p"
proof -
  have eq: "storagePrefix (pathOfSegments segs) = prefixOfSegments segs"
    using assms(1) by (simp only: pathOfSegments_eq storagePrefix_pathOfSegments)
  have "\<forall>s\<in>set (pathParts p). validSegment s" by (simp add: pathParts_valid)
  then have "storagePrefix (fromPrefix p) = prefixOfSegments (pathParts p)"
    by (simp only: fromPrefix_def pathOfSegments_eq storagePrefix_pathOfSegments)
  then have rt: "storagePrefix (fromPrefix p) = p"
    using assms(2) by (simp only: prefixOfSegments_pathParts)
  show ?thesis
    using eq rt storagePrefix_root storagePrefix_endsWith [of "pathOfSegments segs"]
      prefixOfSegments_not_startsWith [OF assms(1)]
    by simp
qed

theorem storage_prefix_wellformed_witness:
  "validSegment ''photos'' \<and> validSegment ''2024'' \<and> wellFormedPrefix ''photos/2024/''
   \<and> pathOfSegments [''photos'', ''2024''] = ''/photos/2024/''
   \<and> fromPrefix ''photos/2024/'' = ''/photos/2024/''
   \<and> storagePrefix ''/photos/2024/'' = ''photos/2024/''"
proof -
  have v: "\<forall>s\<in>set [''photos'', ''2024'']. validSegment s" by (simp add: validSegment_def)
  have w: "wellFormedPrefix ''photos/2024/''"
    by (simp add: wellFormedPrefix_def startsWith_def endsWith_def)
  have p: "pathOfSegments [''photos'', ''2024''] = ''/photos/2024/''"
    by (simp add: pathOfSegments_def newPath_def endsWith_def)
  have f: "fromPrefix ''photos/2024/'' = ''/photos/2024/''"
    by (simp add: fromPrefix_def pathParts_def pathOfSegments_def newPath_def endsWith_def)
  show ?thesis using storage_prefix_wellformed [OF v w] v w p f
    by (simp add: prefixOfSegments_def)
qed

text \<open>
  C9. For every current path, the breadcrumbs are one root entry, labelled with the root
  label and carrying the path \<open>/\<close>, followed by one entry for each non-empty prefix of the
  path's segments, in order. The path of entry 0 gives the empty storage prefix, and the
  path of entry \<open>i\<close> gives the storage prefix of the ancestor made of the first \<open>i\<close>
  segments.
\<close>

theorem breadcrumbs_shape:
  "length (breadcrumbs b cp) = Suc (length (pathParts cp))
   \<and> breadcrumbs b cp ! 0 = \<lparr> bc_name = rootLabel b, bc_path = ''/'' \<rparr>
   \<and> storagePrefix (bc_path (breadcrumbs b cp ! 0)) = ''''
   \<and> (\<forall>i. 0 < i \<and> i \<le> length (pathParts cp) \<longrightarrow>
         bc_name (breadcrumbs b cp ! i) = pathParts cp ! (i - 1)
       \<and> bc_path (breadcrumbs b cp ! i) = pathOfSegments (take i (pathParts cp))
       \<and> storagePrefix (bc_path (breadcrumbs b cp ! i)) = prefixOfSegments (take i (pathParts cp)))"
proof (intro conjI allI impI)
  show "length (breadcrumbs b cp) = Suc (length (pathParts cp))"
    by (simp add: breadcrumbs_def length_pushBreadcrumbs)
  show "breadcrumbs b cp ! 0 = \<lparr> bc_name = rootLabel b, bc_path = ''/'' \<rparr>"
    by (simp add: breadcrumbs_def)
  show "storagePrefix (bc_path (breadcrumbs b cp ! 0)) = ''''"
    by (simp add: breadcrumbs_def storagePrefix_root)
next
  fix i assume i: "0 < i \<and> i \<le> length (pathParts cp)"
  then obtain j where j: "i = Suc j" "j < length (pathParts cp)" by (cases i) auto
  have nth: "breadcrumbs b cp ! i =
      \<lparr> bc_name = pathParts cp ! j, bc_path = ''/'' @ prefixOfSegments (take i (pathParts cp)) \<rparr>"
    using nth_pushBreadcrumbs [OF j(2), of "''/''"] j(1) by (simp add: breadcrumbs_def)
  show "bc_name (breadcrumbs b cp ! i) = pathParts cp ! (i - 1)"
    using nth j(1) by simp
  show pth: "bc_path (breadcrumbs b cp ! i) = pathOfSegments (take i (pathParts cp))"
    using nth by (simp add: pathOfSegments_eq)
  have "\<forall>s\<in>set (take i (pathParts cp)). validSegment s"
    by (meson in_set_takeD pathParts_valid)
  then show "storagePrefix (bc_path (breadcrumbs b cp ! i)) = prefixOfSegments (take i (pathParts cp))"
    by (simp only: pth pathOfSegments_eq storagePrefix_pathOfSegments)
qed

theorem breadcrumbs_shape_witness:
  "breadcrumbs (Some ''bucket'') ''/folder1/sub/'' =
     [\<lparr> bc_name = ''bucket'', bc_path = ''/'' \<rparr>,
      \<lparr> bc_name = ''folder1'', bc_path = ''/folder1/'' \<rparr>,
      \<lparr> bc_name = ''sub'', bc_path = ''/folder1/sub/'' \<rparr>]
   \<and> storagePrefix ''/folder1/'' = ''folder1/''"
proof -
  have pp: "pathParts ''/folder1/sub/'' = [''folder1'', ''sub'']"
    by (simp add: pathParts_def)
  have b: "breadcrumbs (Some ''bucket'') ''/folder1/sub/'' =
     [\<lparr> bc_name = ''bucket'', bc_path = ''/'' \<rparr>,
      \<lparr> bc_name = ''folder1'', bc_path = ''/folder1/'' \<rparr>,
      \<lparr> bc_name = ''sub'', bc_path = ''/folder1/sub/'' \<rparr>]"
    by (simp add: breadcrumbs_def rootLabel_def pp orNull_def truthy_def Let_def)
  have "0 < (1::nat) \<and> 1 \<le> length (pathParts ''/folder1/sub/'')" by (simp add: pp)
  with breadcrumbs_shape [of "Some ''bucket''" "''/folder1/sub/''"]
  have "storagePrefix (bc_path (breadcrumbs (Some ''bucket'') ''/folder1/sub/'' ! 1))
        = prefixOfSegments (take 1 (pathParts ''/folder1/sub/''))" by blast
  then show ?thesis by (simp add: b pp prefixOfSegments_def)
qed

section \<open>Properties of the sort\<close>











lemma arraySort_Nil: "arraySort cmp [] = []"
  by (simp add: arraySort.simps)








section \<open>Properties of the listing\<close>

lemma listObjects_loadRequest:
  "listObjects invoke conn bucket (Some (loadPrefix currentPath)) (Some ''/'') (Some 1000) None
   = invoke (loadRequest conn bucket currentPath)"
  by (simp add: listObjects_def loadRequest_def requestPrefix_def orNull_def truthy_def
      numOrNull_def)

lemma loadObjects_eq:
  assumes "orNull bucketName = Some bucket" and "activeConnectionOf (connections s) = Some conn"
  shows "loadObjects invoke bucketName currentPath (Some s) st =
     (case invoke (loadRequest conn bucket currentPath) of
        Inr response \<Rightarrow>
          st \<lparr> st_objects := lr_objects response, st_folders := lr_common_prefixes response,
               st_loading := False, st_error := None \<rparr>
      | Inl errorMessage \<Rightarrow>
          st \<lparr> st_loading := False, st_error := Some (loadErrorMessage errorMessage) \<rparr>)"
  using assms by (simp add: loadObjects_def listObjects_loadRequest)

text \<open>
  C2, as stated: a truncated first page is followed by further calls with the continuation
  token, and the view holds the entries of all pages. It does not: on the two-page listing
  of Scenario F the state holds the two entries and the one common prefix of the first
  page only.
\<close>

theorem pagination_counterexample:
  "map oi_key (st_objects
      (loadObjects scenarioBackend (Some ''bucket'') ''/'' (Some exampleSettings) initialState))
     = [''a.txt'', ''b.txt'']
   \<and> st_folders
      (loadObjects scenarioBackend (Some ''bucket'') ''/'' (Some exampleSettings) initialState)
     = [''folder1/'']"
proof -
  have b: "orNull (Some ''bucket'') = Some ''bucket''" by (simp add: orNull_def truthy_def)
  have c: "activeConnectionOf (connections exampleSettings) = Some exampleConnection"
    by (simp add: activeConnectionOf_def exampleSettings_def exampleConnection_def)
  have r: "scenarioBackend (loadRequest exampleConnection ''bucket'' ''/'') = Inr scenarioPage1"
    by (simp add: scenarioBackend_def loadRequest_def)
  show ?thesis
    by (simp add: loadObjects_eq [OF b c] r scenarioPage1_def plainObject_def)
qed

text \<open>
  C2, amended. With a bucket selected and a connection configured, \<open>loadObjects\<close> makes
  one call to the backend, without a continuation token; when the call succeeds the state
  holds exactly the objects and the common prefixes of that one response, whether or not it
  is marked as truncated; and the outcome depends on the backend through that one call only.
\<close>

theorem loadObjects_single_request:
  assumes "orNull bucketName = Some bucket" and "activeConnectionOf (connections s) = Some conn"
  shows "rq_continuationToken (loadRequest conn bucket currentPath) = None
       \<and> rq_maxKeys (loadRequest conn bucket currentPath) = Some 1000
       \<and> rq_delimiter (loadRequest conn bucket currentPath) = Some ''/''
       \<and> (\<forall>response. invoke (loadRequest conn bucket currentPath) = Inr response \<longrightarrow>
            st_objects (loadObjects invoke bucketName currentPath (Some s) st) = lr_objects response
          \<and> st_folders (loadObjects invoke bucketName currentPath (Some s) st)
              = lr_common_prefixes response)
       \<and> (\<forall>invoke'. invoke' (loadRequest conn bucket currentPath)
                       = invoke (loadRequest conn bucket currentPath) \<longrightarrow>
            loadObjects invoke' bucketName currentPath (Some s) st
            = loadObjects invoke bucketName currentPath (Some s) st)"
proof (intro conjI allI impI)
  show "rq_continuationToken (loadRequest conn bucket currentPath) = None"
    by (simp add: loadRequest_def)
  show "rq_maxKeys (loadRequest conn bucket currentPath) = Some 1000"
    by (simp add: loadRequest_def)
  show "rq_delimiter (loadRequest conn bucket currentPath) = Some ''/''"
    by (simp add: loadRequest_def)
next
  fix response
  assume "invoke (loadRequest conn bucket currentPath) = Inr response"
  then show "st_objects (loadObjects invoke bucketName currentPath (Some s) st) = lr_objects response"
    and "st_folders (loadObjects invoke bucketName currentPath (Some s) st)
              = lr_common_prefixes response"
    by (simp_all add: loadObjects_eq [OF assms])
next
  fix invoke' :: backend
  assume "invoke' (loadRequest conn bucket currentPath) = invoke (loadRequest conn bucket currentPath)"
  then show "loadObjects invoke' bucketName currentPath (Some s) st
            = loadObjects invoke bucketName currentPath (Some s) st"
    by (simp add: loadObjects_eq [OF assms])
qed

theorem loadObjects_single_request_witness:
  "orNull (Some ''bucket'') = Some ''bucket''
   \<and> activeConnectionOf (connections exampleSettings) = Some exampleConnection
   \<and> scenarioBackend (loadRequest exampleConnection ''bucket'' ''/'') = Inr scenarioPage1
   \<and> lr_is_truncated scenarioPage1
   \<and> st_objects (loadObjects scenarioBackend (Some ''bucket'') ''/'' (Some exampleSettings) initialState)
       = lr_objects scenarioPage1"
proof -
  have b: "orNull (Some ''bucket'') = Some ''bucket''" by (simp add: orNull_def truthy_def)
  have c: "activeConnectionOf (connections exampleSettings) = Some exampleConnection"
    by (simp add: activeConnectionOf_def exampleSettings_def exampleConnection_def)
  have r: "scenarioBackend (loadRequest exampleConnection ''bucket'' ''/'') = Inr scenarioPage1"
    by (simp add: scenarioBackend_def loadRequest_def)
  have t: "lr_is_truncated scenarioPage1" by (simp add: scenarioPage1_def)
  from loadObjects_single_request [OF b c, of "''/''" scenarioBackend initialState] r
  have "st_objects (loadObjects scenarioBackend (Some ''bucket'') ''/'' (Some exampleSettings) initialState)
       = lr_objects scenarioPage1" by blast
  with b c r t show ?thesis by simp
qed

section \<open>Properties of the folder items\<close>



lemma names_folderItem_enumerate:
  "map fi_name (concat (map (folderItem currentPath) (enumerate n folders)))
   = filter (\<lambda>name. name \<noteq> []) (map (folderName currentPath) folders)"
  by (induction folders arbitrary: n) (simp_all add: folderItem_def Let_def)



text \<open>
  A common prefix that does not start with the current prefix is not cut; its own first
  segment becomes a folder item.
\<close>

lemma foreign_prefix_kept:
  "map fi_name (folderItems ''/a/'' [''b/c/'']) = [''b'']"
  by (simp only: folderItems_def names_folderItem_enumerate)
     (simp add: folderName_def currentPrefixOf_def substring_def startsWith_def)



section \<open>Properties of the classification\<close>


















end
